theory Spec2Isabelle
  imports Main
begin

section \<open>Text, as Python's \<^verbatim>\<open>str\<close> sees it\<close>

text \<open>
  The two scripts of the repository, \<^verbatim>\<open>font/bib-sort.py\<close> and \<^verbatim>\<open>font/split-pdf.py\<close>,
  work on decoded text. A character of the model is one code point below 256, so a
  \<^typ>\<open>string\<close> is a Python \<^verbatim>\<open>str\<close> over Latin-1; the classes \<^verbatim>\<open>\s\<close> and \<^verbatim>\<open>\w\<close> of
  \<^verbatim>\<open>re\<close> and \<^verbatim>\<open>str.strip\<close> are the Unicode ones, restricted to that range.
\<close>

abbreviation BSL :: char where "BSL \<equiv> CHR 0x5C"
abbreviation NL :: char where "NL \<equiv> CHR 0x0A"

definition py_isspace :: "char \<Rightarrow> bool" where
  "py_isspace c \<longleftrightarrow>
     c \<in> set [CHR 0x09, CHR 0x0A, CHR 0x0B, CHR 0x0C, CHR 0x0D,
              CHR 0x1C, CHR 0x1D, CHR 0x1E, CHR 0x1F, CHR 0x20, CHR 0x85, CHR 0xA0]"

definition py_isword :: "char \<Rightarrow> bool" where
  "py_isword c \<longleftrightarrow>
     (let n = (of_char c :: nat) in
        (48 \<le> n \<and> n \<le> 57) \<or> (65 \<le> n \<and> n \<le> 90) \<or> n = 95 \<or> (97 \<le> n \<and> n \<le> 122) \<or>
        n = 170 \<or> n = 178 \<or> n = 179 \<or> n = 181 \<or> n = 185 \<or> n = 186 \<or>
        (188 \<le> n \<and> n \<le> 190) \<or> (192 \<le> n \<and> n \<le> 214) \<or> (216 \<le> n \<and> n \<le> 246) \<or>
        248 \<le> n)"

text \<open>\<^verbatim>\<open>s.strip()\<close>: leading and trailing whitespace removed.\<close>

definition strip :: "string \<Rightarrow> string" where
  "strip s = rev (dropWhile py_isspace (rev (dropWhile py_isspace s)))"

text \<open>\<^verbatim>\<open>s.split(d)\<close> for a one-character separator: one piece more than there are
  separators, empty pieces kept.\<close>

fun split_acc :: "char \<Rightarrow> string \<Rightarrow> string \<Rightarrow> string list" where
  "split_acc d acc [] = [rev acc]"
| "split_acc d acc (c # cs) =
     (if c = d then rev acc # split_acc d [] cs else split_acc d (c # acc) cs)"

definition split :: "char \<Rightarrow> string \<Rightarrow> string list" where
  "split d s = split_acc d [] s"

text \<open>\<^verbatim>\<open>str(n)\<close> for a length.\<close>

fun str_nat :: "nat \<Rightarrow> string" where
  "str_nat n =
     (if n < 10 then [char_of (48 + n)] else str_nat (n div 10) @ [char_of (48 + n mod 10)])"

section \<open>The regular expressions of \<^verbatim>\<open>bib-sort.py\<close>\<close>

text \<open>
  The patterns of the script are sequences of character classes, each taken once, or
  repeated greedily (\<^verbatim>\<open>+\<close>, \<^verbatim>\<open>*\<close>) or lazily (\<^verbatim>\<open>*?\<close>), with capture groups around
  parts of the sequence. \<open>rmatch\<close> is the backtracking matcher of \<^verbatim>\<open>re\<close> on such a
  sequence, anchored at the start of its input: a greedy repetition tries the longest run
  first, a lazy one the shortest, and the first way that lets the rest of the pattern
  match is the match. Groups are numbered from 1 in the order of their opening
  parentheses; the matcher returns the text of each closed group and the input that
  follows the match.
\<close>

datatype quant = Once | Many1 | Many0 | Lazy0

datatype tok = Cls "char \<Rightarrow> bool" quant | GOpen | GClose

type_synonym groups = "(nat \<times> string) list"

fun rmatch :: "tok list \<Rightarrow> groups \<Rightarrow> groups \<Rightarrow> string \<Rightarrow> (groups \<times> string) option" where
  "rmatch [] ops cls s = Some (cls, s)"
| "rmatch (GOpen # ts) ops cls s = rmatch ts ((length ops + length cls + 1, s) # ops) cls s"
| "rmatch (GClose # ts) ops cls s =
     (case ops of
        [] \<Rightarrow> None
      | (n, st) # ops' \<Rightarrow> rmatch ts ops' ((n, take (length st - length s) st) # cls) s)"
| "rmatch (Cls p Once # ts) ops cls s =
     (case s of [] \<Rightarrow> None | c # cs \<Rightarrow> if p c then rmatch ts ops cls cs else None)"
| "rmatch (Cls p Many1 # ts) ops cls s =
     (case s of
        [] \<Rightarrow> None
      | c # cs \<Rightarrow> if p c then rmatch (Cls p Many0 # ts) ops cls cs else None)"
| "rmatch (Cls p Many0 # ts) ops cls s =
     (case s of
        [] \<Rightarrow> rmatch ts ops cls []
      | c # cs \<Rightarrow>
          if p c then
            (case rmatch (Cls p Many0 # ts) ops cls cs of
               Some r \<Rightarrow> Some r
             | None \<Rightarrow> rmatch ts ops cls s)
          else rmatch ts ops cls s)"
| "rmatch (Cls p Lazy0 # ts) ops cls s =
     (case rmatch ts ops cls s of
        Some r \<Rightarrow> Some r
      | None \<Rightarrow>
          (case s of
             [] \<Rightarrow> None
           | c # cs \<Rightarrow> if p c then rmatch (Cls p Lazy0 # ts) ops cls cs else None))"

text \<open>\<^verbatim>\<open>m.group(i)\<close> as \<^verbatim>\<open>re.findall\<close> reports it: a group that took no part in the match
  is the empty string.\<close>

definition group :: "groups \<Rightarrow> nat \<Rightarrow> string" where
  "group m i = (case map_of m i of None \<Rightarrow> [] | Some t \<Rightarrow> t)"

text \<open>
  The scan of \<^verbatim>\<open>re.findall\<close>: the leftmost match, then the leftmost match after its end,
  and so on. Every pattern of the script starts with a literal character, so no match is
  empty; the scan moves one character on after an empty match.
\<close>

fun finditer :: "tok list \<Rightarrow> string \<Rightarrow> groups list" where
  "finditer ts [] = (case rmatch ts [] [] [] of None \<Rightarrow> [] | Some (m, rest) \<Rightarrow> [m])"
| "finditer ts (c # cs) =
     (case rmatch ts [] [] (c # cs) of
        None \<Rightarrow> finditer ts cs
      | Some (m, rest) \<Rightarrow> m # finditer ts (if length rest \<le> length cs then rest else cs))"

text \<open>\<^verbatim>\<open>re.findall\<close> with one group returns the group's text, with two groups the pair.\<close>

definition findall1 :: "tok list \<Rightarrow> string \<Rightarrow> string list" where
  "findall1 ts s = map (\<lambda>m. group m 1) (finditer ts s)"

definition findall2 :: "tok list \<Rightarrow> string \<Rightarrow> (string \<times> string) list" where
  "findall2 ts s = map (\<lambda>m. (group m 1, group m 2)) (finditer ts s)"

text \<open>Pattern syntax: a literal text, a class once, \<^verbatim>\<open>+\<close>, \<^verbatim>\<open>*\<close>, \<^verbatim>\<open>*?\<close>.\<close>

definition lit :: "string \<Rightarrow> tok list" where
  "lit s = map (\<lambda>c. Cls (\<lambda>x. x = c) Once) s"

definition not_in :: "string \<Rightarrow> char \<Rightarrow> bool" where
  "not_in cs c \<longleftrightarrow> c \<notin> set cs"

definition any_char :: "char \<Rightarrow> bool" where
  "any_char c \<longleftrightarrow> True"

section \<open>\<^verbatim>\<open>bib-sort.py\<close>\<close>

subsection \<open>Files, errors and dictionaries\<close>

text \<open>
  The working directory: the text of each file that exists, as \<^verbatim>\<open>f.read()\<close> returns it, and
  the paths that cannot be opened for writing. \<^verbatim>\<open>open(path, 'r')\<close> on a missing path raises
  \<^verbatim>\<open>FileNotFoundError\<close>; \<^verbatim>\<open>open(path, 'w')\<close> on a path that cannot be written raises
  another \<^verbatim>\<open>OSError\<close>; \<^verbatim>\<open>d[k]\<close> on a dictionary without the key \<^verbatim>\<open>k\<close> raises
  \<^verbatim>\<open>KeyError\<close>. An error carries its message, \<^verbatim>\<open>str(e)\<close>.
\<close>

datatype py_error = FileNotFoundError string | OSError string | KeyError string

record filesystem =
  files :: "string \<rightharpoonup> string"
  write_denied :: "string set"

text \<open>\<^verbatim>\<open>repr\<close> of a file name or key: the text between single quotes.\<close>

definition repr :: "string \<Rightarrow> string" where
  "repr s = [CHR 0x27] @ s @ [CHR 0x27]"

text \<open>
  A \<^verbatim>\<open>dict\<close> of strings: its items in insertion order, no key twice. \<^verbatim>\<open>d[k] = v\<close>
  replaces the value of a key that is present and appends a new key, \<^verbatim>\<open>k in d\<close> looks
  for the key, \<^verbatim>\<open>d[k]\<close> reads its value, \<^verbatim>\<open>d.values()\<close> lists the values in order and
  \<^verbatim>\<open>len(d)\<close> is the number of items. An \<^verbatim>\<open>OrderedDict\<close> behaves the same.
\<close>

type_synonym dict = "(string \<times> string) list"

type_synonym ordered_dict = dict

fun setitem :: "dict \<Rightarrow> string \<Rightarrow> string \<Rightarrow> dict" where
  "setitem [] k v = [(k, v)]"
| "setitem ((k', v') # d) k v = (if k' = k then (k, v) # d else (k', v') # setitem d k v)"

definition has_key :: "dict \<Rightarrow> string \<Rightarrow> bool" where
  "has_key d k \<longleftrightarrow> k \<in> set (map fst d)"

definition getitem :: "dict \<Rightarrow> string \<Rightarrow> py_error + string" where
  "getitem d k = (case map_of d k of None \<Rightarrow> Inl (KeyError (repr k)) | Some v \<Rightarrow> Inr v)"

definition dict_values :: "dict \<Rightarrow> string list" where
  "dict_values d = map snd d"

definition read_text :: "filesystem \<Rightarrow> string \<Rightarrow> py_error + string" where
  "read_text fs path =
     (case files fs path of
        None \<Rightarrow> Inl (FileNotFoundError (''[Errno 2] No such file or directory: '' @ repr path))
      | Some content \<Rightarrow> Inr content)"

subsection \<open>\<^verbatim>\<open>extract_citations_from_tex\<close>\<close>

definition citation_patterns :: "tok list list" where
  "citation_patterns =
     [lit (BSL # ''cite{'') @ [GOpen, Cls (not_in ''}'') Many1, GClose] @ lit ''}'',
      lit (BSL # ''citep{'') @ [GOpen, Cls (not_in ''}'') Many1, GClose] @ lit ''}'',
      lit (BSL # ''citet{'') @ [GOpen, Cls (not_in ''}'') Many1, GClose] @ lit ''}'',
      lit (BSL # ''citeauthor{'') @ [GOpen, Cls (not_in ''}'') Many1, GClose] @ lit ''}'',
      lit (BSL # ''citeyear{'') @ [GOpen, Cls (not_in ''}'') Many1, GClose] @ lit ''}'',
      lit (BSL # ''citeyearpar{'') @ [GOpen, Cls (not_in ''}'') Many1, GClose] @ lit ''}'',
      lit (BSL # ''autocite{'') @ [GOpen, Cls (not_in ''}'') Many1, GClose] @ lit ''}'',
      lit (BSL # ''nocite{'') @ [GOpen, Cls (not_in ''}'') Many1, GClose] @ lit ''}'']"

text \<open>The two inner loops: the keys of one matched argument are added to the set.\<close>

definition add_keys :: "string \<Rightarrow> string set \<Rightarrow> string set" where
  "add_keys match citations =
     fold (\<lambda>key citations. insert (strip key) citations) (split (CHR '','') match) citations"

text \<open>The loop over the patterns, started from a given set (the script starts it from
  \<^verbatim>\<open>set()\<close>).\<close>

definition add_citations :: "string \<Rightarrow> string set \<Rightarrow> string set" where
  "add_citations content citations =
     fold (\<lambda>pattern citations. fold add_keys (findall1 pattern content) citations)
       citation_patterns citations"

definition extract_citations_from_tex :: "filesystem \<Rightarrow> string \<Rightarrow> py_error + string set" where
  "extract_citations_from_tex fs tex_file =
     (case read_text fs tex_file of
        Inl e \<Rightarrow> Inl e
      | Inr content \<Rightarrow> Inr (add_citations content {}))"

subsection \<open>\<^verbatim>\<open>parse_bib_file\<close>\<close>

text \<open>\<^verbatim>\<open>(@\w+\{([^,\n]+),.*?\n\s*\})\<close> under \<^verbatim>\<open>re.DOTALL\<close>, where \<^verbatim>\<open>.\<close> is any character.\<close>

definition entry_pattern :: "tok list" where
  "entry_pattern =
     [GOpen] @ lit ''@'' @ [Cls py_isword Many1] @ lit ''{'' @
     [GOpen, Cls (not_in [CHR '','', NL]) Many1, GClose] @ lit '','' @
     [Cls any_char Lazy0] @ lit [NL] @ [Cls py_isspace Many0] @ lit ''}'' @ [GClose]"

definition add_entries :: "(string \<times> string) list \<Rightarrow> dict \<Rightarrow> dict" where
  "add_entries matches entries =
     fold (\<lambda>(full_entry, entry_name) entries. setitem entries (strip entry_name) full_entry)
       matches entries"

definition parse_bib_file :: "filesystem \<Rightarrow> string \<Rightarrow> py_error + dict" where
  "parse_bib_file fs bib_file =
     (case read_text fs bib_file of
        Inl e \<Rightarrow> Inl e
      | Inr content \<Rightarrow> Inr (add_entries (findall2 entry_pattern content) []))"

subsection \<open>\<^verbatim>\<open>filter_and_sort_bib_entries\<close>\<close>

text \<open>
  \<^verbatim>\<open>citation_keys\<close> is a Python \<^verbatim>\<open>set\<close> of strings. Its members are a HOL set; the order
  in which \<^verbatim>\<open>for key in citation_keys\<close> enumerates them follows the hashes of the strings,
  which Python draws anew for each process, so the enumeration \<open>iter\<close> is a parameter of
  the model. All that Python promises about it is \<open>enumerates\<close>: each member once, and
  the same order each time the unchanged set is traversed.
\<close>

type_synonym set_order = "string set \<Rightarrow> string list"

definition enumerates :: "set_order \<Rightarrow> string set \<Rightarrow> bool" where
  "enumerates iter S \<longleftrightarrow> distinct (iter S) \<and> set (iter S) = S"

text \<open>The first loop: \<^verbatim>\<open>if key in bib_entries: filtered_entries[key] = bib_entries[key]\<close>.\<close>

fun filter_loop :: "dict \<Rightarrow> string list \<Rightarrow> dict \<Rightarrow> py_error + dict" where
  "filter_loop bib_entries [] filtered_entries = Inr filtered_entries"
| "filter_loop bib_entries (key # keys) filtered_entries =
     (if has_key bib_entries key then
        (case getitem bib_entries key of
           Inl e \<Rightarrow> Inl e
         | Inr v \<Rightarrow> filter_loop bib_entries keys (setitem filtered_entries key v))
      else filter_loop bib_entries keys filtered_entries)"

text \<open>The second loop:
  \<^verbatim>\<open>if key in filtered_entries: sorted_entries[key] = filtered_entries[key]\<close>.\<close>

fun sort_loop :: "dict \<Rightarrow> string list \<Rightarrow> ordered_dict \<Rightarrow> py_error + ordered_dict" where
  "sort_loop filtered_entries [] sorted_entries = Inr sorted_entries"
| "sort_loop filtered_entries (key # keys) sorted_entries =
     (if has_key filtered_entries key then
        (case getitem filtered_entries key of
           Inl e \<Rightarrow> Inl e
         | Inr v \<Rightarrow> sort_loop filtered_entries keys (setitem sorted_entries key v))
      else sort_loop filtered_entries keys sorted_entries)"

definition filter_and_sort_bib_entries ::
    "set_order \<Rightarrow> dict \<Rightarrow> string set \<Rightarrow> py_error + ordered_dict" where
  "filter_and_sort_bib_entries iter bib_entries citation_keys =
     (case filter_loop bib_entries (iter citation_keys) [] of
        Inl e \<Rightarrow> Inl e
      | Inr filtered_entries \<Rightarrow> sort_loop filtered_entries (iter citation_keys) [])"

subsection \<open>\<^verbatim>\<open>write_bib_file\<close>\<close>

text \<open>Opening with mode \<^verbatim>\<open>'w'\<close> empties the file; each \<^verbatim>\<open>f.write\<close> appends to it.\<close>

definition write_bib_file :: "filesystem \<Rightarrow> ordered_dict \<Rightarrow> string \<Rightarrow> py_error + filesystem" where
  "write_bib_file fs entries output_file =
     (if output_file \<in> write_denied fs
      then Inl (OSError (''[Errno 13] Permission denied: '' @ repr output_file))
      else Inr (fs\<lparr>files := (files fs)(output_file \<mapsto>
                  fold (\<lambda>entry f. f @ entry @ [NL, NL]) (dict_values entries) [])\<rparr>))"

subsection \<open>\<^verbatim>\<open>main\<close> of \<^verbatim>\<open>bib-sort.py\<close>\<close>

text \<open>A run of the script: its exit status, the lines it printed, the files it leaves.
  The handlers of \<^verbatim>\<open>main\<close> print the error and exit with status 1.\<close>

type_synonym run = "nat \<times> string list \<times> filesystem"

definition on_error :: "string list \<Rightarrow> filesystem \<Rightarrow> py_error \<Rightarrow> run" where
  "on_error out fs e =
     (case e of
        FileNotFoundError msg \<Rightarrow> (1, out @ [''Error: File not found - '' @ msg], fs)
      | OSError msg \<Rightarrow> (1, out @ [''Error: '' @ msg], fs)
      | KeyError msg \<Rightarrow> (1, out @ [''Error: '' @ msg], fs))"

definition bib_sort_main :: "set_order \<Rightarrow> filesystem \<Rightarrow> run" where
  "bib_sort_main iter fs =
     (let tex_file = ''main.tex'';
          bib_file = ''ref.bib'';
          output_file = ''ref_output.bib'';
          out1 = [''Extracting citations from '' @ tex_file @ ''...'']
      in case extract_citations_from_tex fs tex_file of
           Inl e \<Rightarrow> on_error out1 fs e
         | Inr citations \<Rightarrow>
             (let out2 = out1 @
                    [''Found '' @ str_nat (card citations) @ '' unique citations'',
                     ''Parsing bibliography entries from '' @ bib_file @ ''...'']
              in case parse_bib_file fs bib_file of
                   Inl e \<Rightarrow> on_error out2 fs e
                 | Inr bib_entries \<Rightarrow>
                     (let out3 = out2 @
                            [''Found '' @ str_nat (length bib_entries) @
                               '' entries in bibliography'',
                             ''Filtering and sorting entries...'']
                      in case filter_and_sort_bib_entries iter bib_entries citations of
                           Inl e \<Rightarrow> on_error out3 fs e
                         | Inr processed_entries \<Rightarrow>
                             (let out4 = out3 @
                                    [''Kept '' @ str_nat (length processed_entries) @
                                       '' cited entries'',
                                     ''Writing processed bibliography to '' @ output_file @ ''...'']
                              in case write_bib_file fs processed_entries output_file of
                                   Inl e \<Rightarrow> on_error out4 fs e
                                 | Inr fs' \<Rightarrow> (0, out4 @ [''Processing complete!''], fs')))))"

section \<open>\<^verbatim>\<open>split-pdf.py\<close>\<close>

text \<open>\<^verbatim>\<open>s.replace(old, new)\<close>: the occurrences of \<^verbatim>\<open>old\<close> found from left to right, none
  overlapping another, each replaced by \<^verbatim>\<open>new\<close>.\<close>

function replace :: "string \<Rightarrow> string \<Rightarrow> string \<Rightarrow> string" where
  "replace old new [] = (if old = [] then new else [])"
| "replace old new (c # cs) =
     (if old = [] then new @ c # replace old new cs
      else if take (length old) (c # cs) = old
        then new @ replace old new (drop (length old) (c # cs))
        else c # replace old new cs)"
  by pat_completeness auto
termination
  by (relation "measure (\<lambda>(old, new, s). length s)") auto

definition endswith :: "string \<Rightarrow> string \<Rightarrow> bool" where
  "endswith s suffix \<longleftrightarrow>
     length suffix \<le> length s \<and> drop (length s - length suffix) s = suffix"

text \<open>
  Modelled from the spec: the PDF library \<^verbatim>\<open>PyPDF2\<close>, which is not part of the repository.
  The specification describes it as opening a path as a document with an ordered
  sequence of pages and saving a document to a path, page content preserved. So a file
  of the directory is a PDF, which the library reads as the sequence of its pages, or
  something that the library refuses. \<^verbatim>\<open>PdfReader(path).pages\<close> is the page sequence of
  the file, \<^verbatim>\<open>PdfWriter.add_page\<close> appends a page, and \<^verbatim>\<open>PdfWriter.write\<close> stores a PDF
  of the pages added so far. The pages themselves are not looked into.
\<close>

datatype 'p pdf_file = Pdf "'p list" | NotPdf

type_synonym 'p directory = "string \<rightharpoonup> 'p pdf_file"

type_synonym 'p pdf_run = "nat \<times> string list \<times> 'p directory"

text \<open>Line 33: the base name from which both file names are derived.\<close>

definition base_name :: "string \<Rightarrow> string" where
  "base_name pdf_name =
     (if endswith pdf_name ''.pdf'' then replace ''.pdf'' [] pdf_name else pdf_name)"

text \<open>When the library refuses the backup, the exception is not caught: the script ends
  with status 1 after the copy.\<close>

definition process_pdf :: "'p directory \<Rightarrow> string \<Rightarrow> 'p pdf_run" where
  "process_pdf dir pdf_name =
     (let input_file = base_name pdf_name @ ''.pdf'';
          backup_file = base_name pdf_name @ ''_with_ref.pdf''
      in case dir input_file of
           None \<Rightarrow> (1, [''Error: '' @ input_file @ '' not found!''], dir)
         | Some original \<Rightarrow>
             (let dir1 = dir(backup_file \<mapsto> original);
                  out1 = [''Copied '' @ input_file @ '' to '' @ backup_file]
              in case dir1 backup_file of
                   Some (Pdf pages) \<Rightarrow>
                     (let num_pages = min (length pages) 5;
                          writer = fold (\<lambda>page_num added. added @ [pages ! page_num])
                                     [0..<num_pages] [];
                          dir2 = dir1(input_file \<mapsto> Pdf writer)
                      in (0, out1 @ [''Success! Kept '' @ str_nat num_pages @ '' pages in '' @
                                       input_file], dir2))
                 | _ \<Rightarrow> (1, out1, dir1)))"

text \<open>\<^verbatim>\<open>check_requirements\<close>: the modules that cannot be imported, given those installed.\<close>

definition check_requirements :: "string set \<Rightarrow> string list" where
  "check_requirements installed =
     (if ''shutil'' \<in> installed then [] else [''shutil'']) @
     (if ''PyPDF2'' \<in> installed then [] else [''PyPDF2''])"

definition split_pdf_main :: "string set \<Rightarrow> string list \<Rightarrow> 'p directory \<Rightarrow> 'p pdf_run" where
  "split_pdf_main installed argv dir =
     (if length argv < 2 then
        (1, [''Usage: python split-pdf.py <pdf_name>'',
             ''Example: python split-pdf.py main.pdf''], dir)
      else
        (let pdf_name = argv ! 1;
             missing = check_requirements installed
         in if missing \<noteq> [] then
              (1, [''Missing required modules:''] @ map (\<lambda>module. ''  - '' @ module) missing @
                  (if ''PyPDF2'' \<in> set missing
                   then [[], ''Please install PyPDF2 using:'', ''  pip install PyPDF2'']
                   else []), dir)
            else
              (case process_pdf dir pdf_name of
                 (status, out, dir') \<Rightarrow> (status, ''All requirements satisfied.'' # out, dir'))))"

section \<open>Notions used to state the properties\<close>

text \<open>A key as the extractor should leave it: no whitespace at either end.\<close>

definition trimmed :: "string \<Rightarrow> bool" where
  "trimmed key \<longleftrightarrow> key = [] \<or> (\<not> py_isspace (hd key) \<and> \<not> py_isspace (last key))"

text \<open>The keys of one matched argument, and the keys of all the arguments that the
  patterns match in a document.\<close>

definition keys_of :: "string \<Rightarrow> string set" where
  "keys_of match = strip ` set (split (CHR '','') match)"

definition cited :: "string \<Rightarrow> string set" where
  "cited content =
     (\<Union>pattern\<in>set citation_patterns. \<Union>match\<in>set (findall1 pattern content). keys_of match)"

text \<open>The items of a lookup at the keys of a list, in the order of the list.\<close>

definition kept :: "(string \<rightharpoonup> string) \<Rightarrow> string list \<Rightarrow> ordered_dict" where
  "kept m keys = concat (map (\<lambda>k. case m k of None \<Rightarrow> [] | Some v \<Rightarrow> [(k, v)]) keys)"

text \<open>
  The blank-line-separated blocks of a text, in the words of the specification: the text
  is cut into lines at each newline, a blank line is an empty line, and a block is a
  longest run of lines that are not blank, put together again with newlines.
\<close>

fun join_lines :: "string list \<Rightarrow> string" where
  "join_lines [] = []"
| "join_lines [l] = l"
| "join_lines (l # ls) = l @ NL # join_lines ls"

fun blocks_acc :: "string list \<Rightarrow> string list \<Rightarrow> string list" where
  "blocks_acc cur [] = (if cur = [] then [] else [join_lines cur])"
| "blocks_acc cur (l # ls) =
     (if l = [] then (if cur = [] then blocks_acc [] ls else join_lines cur # blocks_acc [] ls)
      else blocks_acc (cur @ [l]) ls)"

definition blocks :: "string \<Rightarrow> string list" where
  "blocks text = blocks_acc [] (split NL text)"

text \<open>\<open>contains pat s\<close>: the text \<open>pat\<close> occurs somewhere in \<open>s\<close>.\<close>

fun contains :: "string \<Rightarrow> string \<Rightarrow> bool" where
  "contains pat [] = (pat = [])"
| "contains pat (c # cs) = (take (length pat) (c # cs) = pat \<or> contains pat cs)"

subsection \<open>Inputs for the examples\<close>

text \<open>A bibliography entry of three lines, \<^verbatim>\<open>@article{KEY,\<close>, \<^verbatim>\<open>  title = {TITLE}\<close> and
  \<^verbatim>\<open>}\<close>.\<close>

definition entry_text :: "string \<Rightarrow> string \<Rightarrow> string" where
  "entry_text key title =
     ''@article{'' @ key @ '','' @ [NL] @ ''  title = {'' @ title @ ''}'' @ [NL] @ ''}''"

text \<open>The document \<^verbatim>\<open>See \cite{C}, then \citep{A,B}.\<close> and a bibliography with the entries
  \<^verbatim>\<open>A\<close>, \<^verbatim>\<open>B\<close>, \<^verbatim>\<open>C\<close> and \<^verbatim>\<open>D\<close>, a blank line between them.\<close>

definition tex_example :: string where
  "tex_example = ''See '' @ BSL # ''cite{C}, then '' @ BSL # ''citep{A,B}.''"

definition bib_example :: string where
  "bib_example =
     entry_text ''A'' ''a'' @ [NL, NL] @ entry_text ''B'' ''b'' @ [NL, NL] @
     entry_text ''C'' ''c'' @ [NL, NL] @ entry_text ''D'' ''d'' @ [NL]"

definition fs_example :: filesystem where
  "fs_example =
     \<lparr>files = [''main.tex'' \<mapsto> tex_example, ''ref.bib'' \<mapsto> bib_example], write_denied = {}\<rparr>"

text \<open>One of the orders in which Python may enumerate a set of these keys: the order of
  the hash values in a process where they happen to grow with the alphabet.\<close>

definition abc_order :: set_order where
  "abc_order S = filter (\<lambda>k. k \<in> S) [''A'', ''B'', ''C'', ''D'']"

text \<open>Another one: the order in which the example document cites them first.\<close>

definition cab_order :: set_order where
  "cab_order S = filter (\<lambda>k. k \<in> S) [''C'', ''A'', ''B'']"

text \<open>The document \<^verbatim>\<open>\cite{a,,b}\<close>.\<close>

definition fs_commas :: filesystem where
  "fs_commas = \<lparr>files = [''main.tex'' \<mapsto> BSL # ''cite{a,,b}''], write_denied = {}\<rparr>"

text \<open>A document without citation commands, beside the bibliography of the example.\<close>

definition tex_quiet :: string where
  "tex_quiet = ''Nothing is cited, '' @ BSL # ''textbf{nothing}.''"

definition fs_quiet :: filesystem where
  "fs_quiet =
     \<lparr>files = [''main.tex'' \<mapsto> tex_quiet, ''ref.bib'' \<mapsto> bib_example], write_denied = {}\<rparr>"

text \<open>A working directory without \<^verbatim>\<open>main.tex\<close>.\<close>

definition fs_no_tex :: filesystem where
  "fs_no_tex = \<lparr>files = [''ref.bib'' \<mapsto> bib_example], write_denied = {}\<rparr>"

text \<open>The same document under another name in another directory.\<close>

definition fs_other :: filesystem where
  "fs_other = \<lparr>files = [''paper.tex'' \<mapsto> tex_example], write_denied = {''ref_output.bib''}\<rparr>"



text \<open>A directory in which the output file exists already.\<close>

definition fs_old_output :: filesystem where
  "fs_old_output = \<lparr>files = [''ref_output.bib'' \<mapsto> ''old text''], write_denied = {}\<rparr>"

text \<open>An entry with a blank line between two of its fields.\<close>

definition gapped_entry :: string where
  "gapped_entry =
     ''@a{k,'' @ [NL] @ ''  x = 1,'' @ [NL, NL] @ ''  y = 2'' @ [NL] @ ''}''"

section \<open>Properties of \<^verbatim>\<open>bib-sort.py\<close>\<close>

subsection \<open>Evaluations of the examples\<close>

lemma strip_keys:
  "strip ''A'' = ''A''" "strip ''B'' = ''B''" "strip ''C'' = ''C''" "strip ''D'' = ''D''"
  by code_simp+

lemma citations_of_example: "add_citations tex_example {} = {''C'', ''A'', ''B''}"
  by code_simp

lemma entries_of_example:
  "findall2 entry_pattern bib_example =
     [(entry_text ''A'' ''a'', ''A''), (entry_text ''B'' ''b'', ''B''),
      (entry_text ''C'' ''c'', ''C''), (entry_text ''D'' ''d'', ''D'')]"
  by code_simp


lemma no_citations_in_quiet:
  "\<forall>pattern\<in>set citation_patterns. findall1 pattern tex_quiet = []"
  by code_simp

lemma gapped_entry_parsed: "findall2 entry_pattern gapped_entry = [(gapped_entry, ''k'')]"
  by code_simp

lemma abc_order_example: "abc_order {''C'', ''A'', ''B''} = [''A'', ''B'', ''C'']"
  by (simp add: abc_order_def)

lemma abc_order_enumerates: "enumerates abc_order {''C'', ''A'', ''B''}"
  by (auto simp add: enumerates_def abc_order_example)

lemma extract_example:
  "extract_citations_from_tex fs_example ''main.tex'' = Inr {''C'', ''A'', ''B''}"
  by (simp add: extract_citations_from_tex_def read_text_def fs_example_def citations_of_example)

lemma parse_example:
  "parse_bib_file fs_example ''ref.bib'' =
     Inr [(''A'', entry_text ''A'' ''a''), (''B'', entry_text ''B'' ''b''),
          (''C'', entry_text ''C'' ''c''), (''D'', entry_text ''D'' ''d'')]"
  by (simp add: parse_bib_file_def read_text_def fs_example_def entries_of_example strip_keys
        add_entries_def)

subsection \<open>The citation extractor\<close>

lemma fold_insert_image: "fold (\<lambda>x A. insert (f x) A) xs S = S \<union> f ` set xs"
  by (induction xs arbitrary: S) auto

lemma add_keys_union: "add_keys match S = S \<union> keys_of match"
  by (simp add: add_keys_def keys_of_def fold_insert_image)

lemma fold_add_keys_union: "fold add_keys ms S = S \<union> (\<Union>match\<in>set ms. keys_of match)"
  by (induction ms arbitrary: S) (auto simp: add_keys_union)

lemma fold_patterns_union:
  "fold (\<lambda>pattern citations. fold add_keys (findall1 pattern content) citations) ps S =
   S \<union> (\<Union>pattern\<in>set ps. \<Union>match\<in>set (findall1 pattern content). keys_of match)"
  by (induction ps arbitrary: S) (auto simp: fold_add_keys_union)

lemma add_citations_union: "add_citations content S = S \<union> cited content"
  by (simp add: add_citations_def cited_def fold_patterns_union)

lemma last_dropWhile: "dropWhile P xs \<noteq> [] \<Longrightarrow> last (dropWhile P xs) = last xs"
  by (induction xs) auto

lemma strip_trimmed: "trimmed (strip s)"
proof (cases "strip s = []")
  case True
  then show ?thesis by (simp add: trimmed_def)
next
  case False
  define a where "a = dropWhile py_isspace s"
  define b where "b = dropWhile py_isspace (rev a)"
  have s: "strip s = rev b" by (simp add: strip_def a_def b_def)
  have b: "b \<noteq> []" using False s by simp
  then have a: "a \<noteq> []" by (auto simp: b_def)
  have "\<not> py_isspace (hd b)" using b unfolding b_def by (rule hd_dropWhile)
  then have 1: "\<not> py_isspace (last (strip s))" using b by (simp add: s last_rev)
  have "last b = last (rev a)" using b unfolding b_def by (rule last_dropWhile)
  then have "hd (strip s) = hd a" using a b by (simp add: s hd_rev last_rev)
  moreover have "\<not> py_isspace (hd a)" using a unfolding a_def by (rule hd_dropWhile)
  ultimately show ?thesis using 1 by (simp add: trimmed_def)
qed

lemma cited_trimmed: "key \<in> cited content \<Longrightarrow> trimmed key"
  by (auto simp: cited_def keys_of_def strip_trimmed)

text \<open>
  Claim C3, as stated, fails: for the document \<^verbatim>\<open>\cite{a,,b}\<close> the extractor returns a
  set with the empty string in it. The piece between the two commas is empty, and
  the script adds every trimmed piece without looking at it.
\<close>

theorem C3_empty_key_counterexample:
  "extract_citations_from_tex fs_commas ''main.tex'' = Inr {''a'', [], ''b''}"
proof -
  have "add_citations (BSL # ''cite{a,,b}'') {} = {''a'', [], ''b''}"
    by code_simp
  then show ?thesis
    by (simp add: extract_citations_from_tex_def read_text_def fs_commas_def)
qed

text \<open>
  Claim C3, amended. When the extractor returns a set, the set is made of the trimmed
  pieces of the matched arguments: each argument that a pattern matches in the document
  is split on commas, each piece is trimmed, and every trimmed piece is in the set,
  the empty one as well. So no element of the set has whitespace at either end.
\<close>

theorem C3_keys_trimmed:
  assumes "extract_citations_from_tex fs tex_file = Inr citations"
  shows "(\<exists>content. files fs tex_file = Some content \<and>
            citations =
              (\<Union>pattern\<in>set citation_patterns. \<Union>match\<in>set (findall1 pattern content).
                 strip ` set (split (CHR '','') match))) \<and>
         (\<forall>key\<in>citations. trimmed key)"
proof -
  obtain content where c: "files fs tex_file = Some content"
    and k: "citations = add_citations content {}"
    using assms
    by (auto simp: extract_citations_from_tex_def read_text_def split: option.splits)
  have "citations = cited content" using k by (simp add: add_citations_union)
  then show ?thesis using c cited_trimmed[of _ content]
    by (auto simp: cited_def keys_of_def)
qed

theorem C3_keys_trimmed_witness:
  "files fs_example ''main.tex'' = Some tex_example \<and>
   trimmed ''C'' \<and> trimmed ''A'' \<and> trimmed ''B''"
  using C3_keys_trimmed[OF extract_example] by (simp add: fs_example_def)

text \<open>
  Claim C8. The set that the extractor returns is a function of the text of the
  document alone: two runs on the same text, be it under another name in another
  directory, return the same set. Running the loop of the extractor once more on its
  own result adds nothing to it.
\<close>

theorem C8_extraction_repeatable:
  assumes "files fs tex_file = Some content" and "files fs' tex_file' = Some content"
  shows "extract_citations_from_tex fs tex_file = extract_citations_from_tex fs' tex_file' \<and>
         extract_citations_from_tex fs tex_file = Inr (add_citations content {}) \<and>
         add_citations content (add_citations content {}) = add_citations content {}"
  using assms by (simp add: extract_citations_from_tex_def read_text_def add_citations_union)

theorem C8_extraction_repeatable_witness:
  "extract_citations_from_tex fs_example ''main.tex'' =
     extract_citations_from_tex fs_other ''paper.tex'' \<and>
   extract_citations_from_tex fs_example ''main.tex'' = Inr (add_citations tex_example {}) \<and>
   add_citations tex_example (add_citations tex_example {}) = add_citations tex_example {}"
proof -
  have 1: "files fs_example ''main.tex'' = Some tex_example"
    by (simp add: fs_example_def)
  have 2: "files fs_other ''paper.tex'' = Some tex_example"
    by (simp add: fs_other_def)
  show ?thesis using C8_extraction_repeatable[OF 1 2] .
qed

subsection \<open>Filter and reorder\<close>

lemma getitem_Some: "map_of d k = Some v \<Longrightarrow> getitem d k = Inr v"
  by (simp add: getitem_def)

lemma has_key_iff: "has_key d k \<longleftrightarrow> map_of d k \<noteq> None"
  by (simp add: has_key_def map_of_eq_None_iff)

lemma map_of_setitem: "map_of (setitem d k v) = (map_of d)(k \<mapsto> v)"
  by (induction d) (auto intro!: ext)

lemma filter_loop_total:
  "\<exists>f'. filter_loop m keys f = Inr f' \<and>
     map_of f' = (\<lambda>k. if k \<in> set keys \<and> map_of m k \<noteq> None then map_of m k else map_of f k)"
proof (induction keys arbitrary: f)
  case Nil
  show ?case by simp
next
  case (Cons key keys)
  show ?case
  proof (cases "map_of m key")
    case None
    then show ?thesis using Cons.IH[of f] by (auto simp: has_key_iff intro!: ext)
  next
    case (Some v)
    have eq: "(\<lambda>k. if k \<in> set keys \<and> map_of m k \<noteq> None then map_of m k
                  else map_of (setitem f key v) k) =
              (\<lambda>k. if k \<in> set (key # keys) \<and> map_of m k \<noteq> None then map_of m k
                  else map_of f k)"
      using Some by (auto simp: map_of_setitem intro!: ext)
    have "filter_loop m (key # keys) f = filter_loop m keys (setitem f key v)"
      using Some by (simp add: getitem_Some has_key_iff)
    then show ?thesis using Cons.IH[of "setitem f key v"] eq by simp
  qed
qed

lemma setitem_new: "k \<notin> fst ` set d \<Longrightarrow> setitem d k v = d @ [(k, v)]"
  by (induction d) auto

lemma fst_kept: "fst ` set (kept f keys) \<subseteq> set keys"
  by (auto simp: kept_def split: option.splits)

lemma sort_loop_total:
  "distinct keys \<Longrightarrow> set keys \<inter> fst ` set d = {} \<Longrightarrow>
   sort_loop f keys d = Inr (d @ kept (map_of f) keys)"
proof (induction keys arbitrary: d)
  case Nil
  show ?case by (simp add: kept_def)
next
  case (Cons key keys)
  show ?case
  proof (cases "map_of f key")
    case None
    then show ?thesis using Cons.IH[of d] Cons.prems by (auto simp: has_key_iff kept_def)
  next
    case (Some v)
    have new: "key \<notin> fst ` set d" using Cons.prems by auto
    have "set keys \<inter> fst ` set (d @ [(key, v)]) = {}" using Cons.prems by auto
    then have "sort_loop f keys (d @ [(key, v)]) = Inr ((d @ [(key, v)]) @ kept (map_of f) keys)"
      using Cons.IH[of "d @ [(key, v)]"] Cons.prems by simp
    then show ?thesis using Some new
      by (simp add: getitem_Some has_key_iff setitem_new kept_def)
  qed
qed

lemma kept_cong: "(\<And>k. k \<in> set keys \<Longrightarrow> f k = g k) \<Longrightarrow> kept f keys = kept g keys"
  unfolding kept_def by (induction keys) auto

text \<open>The output follows the enumeration of the set, whatever the document's order.\<close>

lemma filter_and_sort_follows_iteration:
  assumes "enumerates iter S"
  shows "filter_and_sort_bib_entries iter m S = Inr (kept (map_of m) (iter S))"
proof -
  have d: "distinct (iter S)" using assms by (simp add: enumerates_def)
  obtain f where f: "filter_loop m (iter S) [] = Inr f"
    and mf: "map_of f = (\<lambda>k. if k \<in> set (iter S) \<and> map_of m k \<noteq> None then map_of m k
                               else map_of [] k)"
    using filter_loop_total[of m "iter S" "[]"] by blast
  have "kept (map_of f) (iter S) = kept (map_of m) (iter S)"
    by (rule kept_cong) (auto simp: mf)
  then show ?thesis
    using sort_loop_total[OF d, of "[]" f] f
    by (simp add: filter_and_sort_bib_entries_def)
qed

lemma distinct_kept: "distinct keys \<Longrightarrow> distinct (map fst (kept m keys))"
proof (induction keys)
  case Nil
  show ?case by (simp add: kept_def)
next
  case (Cons k keys)
  have new: "k \<notin> fst ` set (kept m keys)"
    using Cons.prems fst_kept[of m keys] by auto
  have rest: "distinct (map fst (kept m keys))"
    using Cons by simp
  have "kept m (k # keys) = (case m k of None \<Rightarrow> [] | Some v \<Rightarrow> [(k, v)]) @ kept m keys"
    by (simp add: kept_def)
  then show ?case using new rest by (auto split: option.splits)
qed

lemma set_kept: "set (kept m keys) = {(k, v). k \<in> set keys \<and> m k = Some v}"
  by (auto simp: kept_def split: option.splits)

lemma filter_and_sort_exact:
  assumes "enumerates iter S"
  shows "\<exists>out. filter_and_sort_bib_entries iter m S = Inr out \<and>
           distinct (map fst out) \<and> set out = {(k, v). k \<in> S \<and> map_of m k = Some v}"
proof -
  have "distinct (iter S)" and "set (iter S) = S"
    using assms by (simp_all add: enumerates_def)
  then show ?thesis
    using filter_and_sort_follows_iteration[OF assms, of m] distinct_kept[of "iter S" "map_of m"]
      set_kept[of "map_of m" "iter S"] by simp
qed

lemma filter_and_sort_example:
  "filter_and_sort_bib_entries abc_order
     [(''A'', entry_text ''A'' ''a''), (''B'', entry_text ''B'' ''b''),
      (''C'', entry_text ''C'' ''c''), (''D'', entry_text ''D'' ''d'')] {''C'', ''A'', ''B''} =
   Inr [(''A'', entry_text ''A'' ''a''), (''B'', entry_text ''B'' ''b''),
        (''C'', entry_text ''C'' ''c'')]"
  by (simp add: filter_and_sort_follows_iteration[OF abc_order_enumerates] abc_order_example
        kept_def)

text \<open>
  Claim C5. Whatever the order in which the citation set is enumerated, the filter and
  reorder step raises no error: it returns a list. The keys of the list are distinct, and
  its items are exactly the pairs of a cited key and the entry that the mapping has for
  it; a cited key without an entry leaves no trace.
\<close>

theorem C5_missing_keys_dropped:
  assumes "enumerates iter citation_keys"
  shows "\<exists>out. filter_and_sort_bib_entries iter bib_entries citation_keys = Inr out \<and>
           distinct (map fst out) \<and>
           set out = {(k, v). k \<in> citation_keys \<and> map_of bib_entries k = Some v}"
  using filter_and_sort_exact[OF assms] .

text \<open>The theorem for the citations \<^verbatim>\<open>C\<close>, \<^verbatim>\<open>A\<close>, \<^verbatim>\<open>B\<close> and a mapping that has \<^verbatim>\<open>A\<close> and
  \<^verbatim>\<open>D\<close> only.\<close>

theorem C5_missing_keys_dropped_witness:
  "enumerates abc_order {''C'', ''A'', ''B''} \<and>
   (\<exists>out. filter_and_sort_bib_entries abc_order
             [(''A'', entry_text ''A'' ''a''), (''D'', entry_text ''D'' ''d'')]
             {''C'', ''A'', ''B''} = Inr out \<and>
          distinct (map fst out) \<and> set out = {(''A'', entry_text ''A'' ''a'')})"
proof -
  have "{(k, v). k \<in> {''C'', ''A'', ''B''} \<and>
          map_of [(''A'', entry_text ''A'' ''a''), (''D'', entry_text ''D'' ''d'')] k = Some v} =
        {(''A'', entry_text ''A'' ''a'')}"
    by (auto split: if_splits)
  then show ?thesis
    using abc_order_enumerates
      C5_missing_keys_dropped[OF abc_order_enumerates,
        of "[(''A'', entry_text ''A'' ''a''), (''D'', entry_text ''D'' ''d'')]"]
    by simp
qed

subsection \<open>The bibliography parser\<close>





subsection \<open>The serializer\<close>

lemma split_acc_nonempty: "split_acc d acc s \<noteq> []"
  by (induction s arbitrary: acc) auto

lemma split_acc_append:
  "split_acc d acc (a @ d # b) = split_acc d acc a @ split_acc d [] b"
  by (induction a arbitrary: acc) auto

lemma join_lines_Cons: "ls \<noteq> [] \<Longrightarrow> join_lines (l # ls) = l @ NL # join_lines ls"
  by (cases ls) auto

lemma join_split_acc: "join_lines (split_acc NL acc s) = rev acc @ s"
  by (induction s arbitrary: acc) (auto simp: join_lines_Cons split_acc_nonempty)

lemma blocks_acc_run:
  "\<forall>l\<in>set ls. l \<noteq> [] \<Longrightarrow>
   blocks_acc cur (ls @ [] # rest) =
     (if cur @ ls = [] then blocks_acc [] rest else join_lines (cur @ ls) # blocks_acc [] rest)"
  by (induction ls arbitrary: cur) auto

lemma written_concat:
  "fold (\<lambda>entry f. f @ entry @ [NL, NL]) es acc = acc @ concat (map (\<lambda>e. e @ [NL, NL]) es)"
  by (induction es arbitrary: acc) auto

lemma blocks_written:
  "\<forall>e\<in>set es. [] \<notin> set (split NL e) \<Longrightarrow>
   blocks (concat (map (\<lambda>e. e @ [NL, NL]) es)) = es"
proof (induction es)
  case Nil
  show ?case by (simp add: blocks_def split_def)
next
  case (Cons e es)
  let ?rest = "concat (map (\<lambda>e. e @ [NL, NL]) es)"
  have ne: "\<forall>l\<in>set (split NL e). l \<noteq> []" using Cons.prems by auto
  have s: "split NL (e @ NL # NL # ?rest) = split NL e @ [] # split NL ?rest"
    by (simp add: split_def split_acc_append)
  have "blocks (e @ NL # NL # ?rest) = join_lines (split NL e) # blocks ?rest"
    unfolding blocks_def s using blocks_acc_run[OF ne, of "[]"]
    by (simp add: split_def split_acc_nonempty)
  also have "join_lines (split NL e) = e" by (simp add: split_def join_split_acc)
  also have "blocks ?rest = es" using Cons by simp
  finally show ?case by simp
qed

text \<open>
  Claim C2, as stated, fails: the parser accepts an entry with a blank line between two
  of its fields, and the serializer writes it as it is, so the file written for this one
  entry has two blank-line-separated blocks, neither of them the entry.
\<close>

theorem C2_blank_line_counterexample:
  "findall2 entry_pattern gapped_entry = [(gapped_entry, ''k'')] \<and>
   write_bib_file \<lparr>files = Map.empty, write_denied = {}\<rparr> [(''k'', gapped_entry)]
       ''ref_output.bib'' =
     Inr \<lparr>files = [''ref_output.bib'' \<mapsto> gapped_entry @ [NL, NL]], write_denied = {}\<rparr> \<and>
   blocks (gapped_entry @ [NL, NL]) =
     [''@a{k,'' @ [NL] @ ''  x = 1,'', ''  y = 2'' @ [NL] @ ''}'']"
proof -
  have "blocks (gapped_entry @ [NL, NL]) =
          [''@a{k,'' @ [NL] @ ''  x = 1,'', ''  y = 2'' @ [NL] @ ''}'']"
    by code_simp
  then show ?thesis
    by (simp add: gapped_entry_parsed write_bib_file_def dict_values_def)
qed

text \<open>
  Claim C2, amended. For every ordered list of entries and every destination that can
  be opened for writing, the serializer succeeds and leaves at the destination, whatever
  was there before, the raw texts of the entries in list order, each followed by a
  newline and a blank line; the other files are as they were. When no entry has a
  blank line in its raw text (every line of every entry is non-empty), the written file
  has exactly as many blank-line-separated blocks as there are entries, and each block
  is the raw text of the corresponding entry.
\<close>

theorem C2_serializer:
  assumes "output_file \<notin> write_denied fs"
  shows "\<exists>fs'. write_bib_file fs entries output_file = Inr fs' \<and>
           files fs' output_file =
             Some (concat (map (\<lambda>e. e @ [NL, NL]) (dict_values entries))) \<and>
           (\<forall>path. path \<noteq> output_file \<longrightarrow> files fs' path = files fs path) \<and>
           ((\<forall>e\<in>set (dict_values entries). [] \<notin> set (split NL e)) \<longrightarrow>
              blocks (concat (map (\<lambda>e. e @ [NL, NL]) (dict_values entries))) =
                dict_values entries)"
  using assms blocks_written[of "dict_values entries"]
  by (simp add: write_bib_file_def written_concat)

text \<open>The theorem for the entries \<^verbatim>\<open>C\<close> and \<^verbatim>\<open>A\<close> of the example, written over an
  existing file.\<close>

theorem C2_serializer_witness:
  "files fs_old_output ''ref_output.bib'' = Some ''old text'' \<and>
   (\<exists>fs'. write_bib_file fs_old_output
             [(''C'', entry_text ''C'' ''c''), (''A'', entry_text ''A'' ''a'')]
             ''ref_output.bib'' = Inr fs' \<and>
          files fs' ''ref_output.bib'' =
            Some (entry_text ''C'' ''c'' @ [NL, NL] @ entry_text ''A'' ''a'' @ [NL, NL])) \<and>
   blocks (entry_text ''C'' ''c'' @ [NL, NL] @ entry_text ''A'' ''a'' @ [NL, NL]) =
     [entry_text ''C'' ''c'', entry_text ''A'' ''a'']"
proof -
  have 1: "''ref_output.bib'' \<notin> write_denied fs_old_output"
    by (simp add: fs_old_output_def)
  have 2: "[] \<notin> set (split NL (entry_text ''C'' ''c''))"
          "[] \<notin> set (split NL (entry_text ''A'' ''a''))"
    by code_simp+
  have 3: "files fs_old_output ''ref_output.bib'' = Some ''old text''"
    by (simp add: fs_old_output_def)
  show ?thesis
    using C2_serializer[OF 1,
        of "[(''C'', entry_text ''C'' ''c''), (''A'', entry_text ''A'' ''a'')]"] 2 3
    by (auto simp: dict_values_def)
qed

subsection \<open>The whole run\<close>

text \<open>
  Claim C1 fails on the code. The document cites \<^verbatim>\<open>C\<close> first and \<^verbatim>\<open>A\<close>, \<^verbatim>\<open>B\<close> later; the
  bibliography has \<^verbatim>\<open>A\<close>, \<^verbatim>\<open>B\<close>, \<^verbatim>\<open>C\<close> and the uncited \<^verbatim>\<open>D\<close>. The script collects the
  citations in a set and afterwards asks the set, not the document, for their order. In
  a process where the set enumerates its members as \<^verbatim>\<open>A\<close>, \<^verbatim>\<open>B\<close>, \<^verbatim>\<open>C\<close>, the run succeeds
  and the output file has the entries in that order instead of \<^verbatim>\<open>C\<close>, \<^verbatim>\<open>A\<close>, \<^verbatim>\<open>B\<close>;
  \<^verbatim>\<open>D\<close> is left out, as it should be.
\<close>

theorem C1_output_in_set_order:
  "enumerates abc_order {''C'', ''A'', ''B''} \<and>
   extract_citations_from_tex fs_example ''main.tex'' = Inr {''C'', ''A'', ''B''} \<and>
   fst (bib_sort_main abc_order fs_example) = 0 \<and>
   files (snd (snd (bib_sort_main abc_order fs_example))) ''ref_output.bib'' =
     Some (entry_text ''A'' ''a'' @ [NL, NL] @ entry_text ''B'' ''b'' @ [NL, NL] @
           entry_text ''C'' ''c'' @ [NL, NL])"
proof -
  have w: "write_denied fs_example = {}"
    by (simp add: fs_example_def)
  show ?thesis
    by (simp add: abc_order_enumerates bib_sort_main_def Let_def extract_example parse_example
          filter_and_sort_example w write_bib_file_def dict_values_def)
qed

text \<open>When the set happens to enumerate its members in the order of their first
  citation, the output of the same run is in that order.\<close>

lemma output_when_set_keeps_document_order:
  "files (snd (snd (bib_sort_main cab_order fs_example))) ''ref_output.bib'' =
   Some (entry_text ''C'' ''c'' @ [NL, NL] @ entry_text ''A'' ''a'' @ [NL, NL] @
         entry_text ''B'' ''b'' @ [NL, NL])"
proof -
  have o: "cab_order {''C'', ''A'', ''B''} = [''C'', ''A'', ''B'']"
    by (simp add: cab_order_def)
  then have e: "enumerates cab_order {''C'', ''A'', ''B''}"
    by (auto simp: enumerates_def)
  have w: "write_denied fs_example = {}"
    by (simp add: fs_example_def)
  have "filter_and_sort_bib_entries cab_order
          [(''A'', entry_text ''A'' ''a''), (''B'', entry_text ''B'' ''b''),
           (''C'', entry_text ''C'' ''c''), (''D'', entry_text ''D'' ''d'')] {''C'', ''A'', ''B''} =
        Inr [(''C'', entry_text ''C'' ''c''), (''A'', entry_text ''A'' ''a''),
             (''B'', entry_text ''B'' ''b'')]"
    by (simp add: filter_and_sort_follows_iteration[OF e] o kept_def)
  then show ?thesis
    by (simp add: bib_sort_main_def Let_def extract_example parse_example w write_bib_file_def
          dict_values_def)
qed

text \<open>
  Claim C6. When \<^verbatim>\<open>main.tex\<close> or \<^verbatim>\<open>ref.bib\<close> does not exist, the run ends with status 1,
  the last line it prints is the diagnostic of the missing file, and the files are
  what they were: the output file is neither created nor changed.
\<close>

theorem C6_missing_input:
  assumes "files fs ''main.tex'' = None \<or> files fs ''ref.bib'' = None"
  shows "\<exists>out msg. bib_sort_main iter fs = (1, out @ [''Error: File not found - '' @ msg], fs)"
proof (cases "files fs ''main.tex''")
  case None
  then show ?thesis
    by (simp add: bib_sort_main_def extract_citations_from_tex_def read_text_def on_error_def)
next
  case (Some doc)
  then have "files fs ''ref.bib'' = None" using assms by simp
  then show ?thesis using Some
    by (simp add: bib_sort_main_def extract_citations_from_tex_def parse_bib_file_def
          read_text_def on_error_def Let_def)
qed

text \<open>The theorem in a directory that has \<^verbatim>\<open>ref.bib\<close> and no \<^verbatim>\<open>main.tex\<close>.\<close>

theorem C6_missing_input_witness:
  "files fs_no_tex ''main.tex'' = None \<and>
   (\<exists>out msg. bib_sort_main abc_order fs_no_tex =
      (1, out @ [''Error: File not found - '' @ msg], fs_no_tex))"
proof -
  have 1: "files fs_no_tex ''main.tex'' = None"
    by (simp add: fs_no_tex_def)
  then have "files fs_no_tex ''main.tex'' = None \<or> files fs_no_tex ''ref.bib'' = None"
    by simp
  then show ?thesis using 1 C6_missing_input[of fs_no_tex abc_order] by simp
qed

lemma no_matches_no_citations:
  assumes "\<forall>pattern\<in>set citation_patterns. findall1 pattern content = []"
  shows "add_citations content {} = {}"
  using assms by (simp add: add_citations_union cited_def)

text \<open>
  Claim C7. The document exists and no citation pattern matches anywhere in it; the
  bibliography exists (with entries or without); the output file can be written. Then
  the run ends with status 0 and the output file is empty, the other files unchanged.
\<close>

theorem C7_no_citations_empty_output:
  assumes "files fs ''main.tex'' = Some doc"
    and "\<forall>pattern\<in>set citation_patterns. findall1 pattern doc = []"
    and "files fs ''ref.bib'' = Some bib"
    and "''ref_output.bib'' \<notin> write_denied fs"
    and "enumerates iter {}"
  shows "\<exists>out. bib_sort_main iter fs =
           (0, out, fs\<lparr>files := (files fs)(''ref_output.bib'' \<mapsto> [])\<rparr>)"
proof -
  have 1: "extract_citations_from_tex fs ''main.tex'' = Inr {}"
    using assms(1) no_matches_no_citations[OF assms(2)]
    by (simp add: extract_citations_from_tex_def read_text_def)
  have 2: "\<exists>m. parse_bib_file fs ''ref.bib'' = Inr m"
    using assms(3) by (simp add: parse_bib_file_def read_text_def)
  have "iter {} = []" using assms(5) by (simp add: enumerates_def)
  then have 3: "filter_and_sort_bib_entries iter m {} = Inr []" for m
    by (simp add: filter_and_sort_bib_entries_def)
  show ?thesis using 1 2 3 assms(4)
    by (auto simp: bib_sort_main_def Let_def write_bib_file_def dict_values_def)
qed

text \<open>The theorem for a document without citations beside the bibliography of four
  entries.\<close>

theorem C7_no_citations_empty_output_witness:
  "findall2 entry_pattern bib_example \<noteq> [] \<and>
   (\<exists>out. bib_sort_main abc_order fs_quiet =
      (0, out, fs_quiet\<lparr>files := (files fs_quiet)(''ref_output.bib'' \<mapsto> [])\<rparr>))"
proof -
  have 1: "files fs_quiet ''main.tex'' = Some tex_quiet"
    and 3: "files fs_quiet ''ref.bib'' = Some bib_example"
    and 4: "''ref_output.bib'' \<notin> write_denied fs_quiet"
    by (simp_all add: fs_quiet_def)
  have 5: "enumerates abc_order {}"
    by (simp add: enumerates_def abc_order_def)
  show ?thesis
    using C7_no_citations_empty_output[OF 1 no_citations_in_quiet 3 4 5]
    by (simp add: entries_of_example)
qed

section \<open>Properties of \<^verbatim>\<open>split-pdf.py\<close>\<close>





lemma no_early_pdf:
  assumes "take 4 (c # cs) \<noteq> ''.pdf''"
  shows "take 4 (c # cs @ ''.pdf'' @ r) \<noteq> ''.pdf''"
proof (cases "3 \<le> length cs")
  case True
  then show ?thesis using assms by simp
next
  case False
  then consider "cs = []" | x where "cs = [x]" | x y where "cs = [x, y]"
    by (cases cs; cases "tl cs"; cases "tl (tl cs)") auto
  then show ?thesis by cases auto
qed

lemma replace_skip:
  "\<not> contains ''.pdf'' p \<Longrightarrow>
   replace ''.pdf'' [] (p @ ''.pdf'' @ r) = p @ replace ''.pdf'' [] r"
proof (induction p)
  case Nil
  then show ?case by simp
next
  case (Cons c cs)
  then have a: "take 4 (c # cs) \<noteq> ''.pdf''" and b: "\<not> contains ''.pdf'' cs"
    by (simp_all add: numeral_3_eq_3)
  have "take 4 (c # cs @ ''.pdf'' @ r) \<noteq> ''.pdf''"
    using no_early_pdf[OF a] .
  then show ?case using Cons.IH[OF b] by (auto simp: numeral_3_eq_3)
qed

lemma replace_parts:
  "\<forall>p\<in>set ps. \<not> contains ''.pdf'' p \<Longrightarrow>
   replace ''.pdf'' [] (concat (map (\<lambda>p. p @ ''.pdf'') ps)) = concat ps"
proof (induction ps)
  case Nil
  show ?case by simp
next
  case (Cons p ps)
  then show ?case
    using replace_skip[of p "concat (map (\<lambda>p. p @ ''.pdf'') ps)"] by simp
qed

lemma endswith_parts:
  "ps \<noteq> [] \<Longrightarrow> endswith (concat (map (\<lambda>p. p @ ''.pdf'') ps)) ''.pdf''"
proof (induction ps rule: rev_induct)
  case Nil
  then show ?case by simp
next
  case (snoc p ps)
  show ?case by (simp add: endswith_def)
qed

text \<open>
  Claim C10. An argument that does not end with \<^verbatim>\<open>.pdf\<close> is its own base name. An
  argument that ends with \<^verbatim>\<open>.pdf\<close> is a sequence of parts, each followed by \<^verbatim>\<open>.pdf\<close>
  and none containing \<^verbatim>\<open>.pdf\<close>; its base name is the parts put together, so every
  occurrence of \<^verbatim>\<open>.pdf\<close> is removed and not only the last one.
\<close>

theorem C10_base_name:
  "(\<not> endswith pdf_name ''.pdf'' \<longrightarrow> base_name pdf_name = pdf_name) \<and>
   (ps \<noteq> [] \<and> (\<forall>p\<in>set ps. \<not> contains ''.pdf'' p) \<longrightarrow>
      base_name (concat (map (\<lambda>p. p @ ''.pdf'') ps)) = concat ps)"
  using replace_parts[of ps] endswith_parts[of ps] by (simp add: base_name_def)

text \<open>The theorem at the arguments \<^verbatim>\<open>main\<close> and \<^verbatim>\<open>a.pdf.pdf\<close> (the parts \<^verbatim>\<open>a\<close> and the
  empty text).\<close>

theorem C10_base_name_witness:
  "base_name ''main'' = ''main'' \<and> base_name ''a.pdf.pdf'' = ''a''"
  using C10_base_name[of "''main''" "[''a'', []]"] by (simp add: endswith_def)

text \<open>A consequence for the run: with the argument \<^verbatim>\<open>a.pdf.pdf\<close> the script looks for
  \<^verbatim>\<open>a.pdf\<close>, and ends with status 1 when only \<^verbatim>\<open>a.pdf.pdf\<close> is there.\<close>

lemma inner_pdf_argument:
  "split_pdf_main {''shutil'', ''PyPDF2''} [''split-pdf.py'', ''a.pdf.pdf'']
     [''a.pdf.pdf'' \<mapsto> Pdf pages] =
   (1, [''All requirements satisfied.'', ''Error: a.pdf not found!''],
    [''a.pdf.pdf'' \<mapsto> Pdf pages])"
proof -
  have "base_name ''a.pdf.pdf'' = ''a''"
    by (simp add: base_name_def endswith_def)
  then show ?thesis
    by (simp add: split_pdf_main_def check_requirements_def process_pdf_def)
qed

end
